theory Spec2Isabelle
  imports Main "HOL-Library.FSet" "HOL-Library.AList"
begin

section \<open>Python strings\<close>

text \<open>
  A Python \<open>str\<close> is a sequence of Unicode code points, so it is modelled as a list of
  natural numbers (\<open>len\<close> is \<open>length\<close>). ASCII literals are written through
  \<open>ustr\<close>, which maps each character of an Isabelle string to its code point.
\<close>

type_synonym ustr = "nat list"

abbreviation ustr :: "string \<Rightarrow> ustr" where
  "ustr s \<equiv> map of_char s"

definition dash :: nat where
  "dash = 45"

definition is_dash :: "nat \<Rightarrow> bool" where
  "is_dash c \<longleftrightarrow> c = dash"

text \<open>
  The code points \<open>str.strip()\<close> removes (those for which \<open>str.isspace\<close> holds):
  TAB..CR, FS..US and space, NEL, NBSP, and the Unicode space separators.
\<close>

definition is_space :: "nat \<Rightarrow> bool" where
  "is_space c \<longleftrightarrow>
     (9 \<le> c \<and> c \<le> 13) \<or> (28 \<le> c \<and> c \<le> 32) \<or> c = 133 \<or> c = 160 \<or> c = 5760 \<or>
     (8192 \<le> c \<and> c \<le> 8202) \<or> c = 8232 \<or> c = 8233 \<or> c = 8239 \<or> c = 8287 \<or> c = 12288"

text \<open>\<open>s.strip()\<close> and \<open>s.strip("-")\<close>: drop the matching code points at both ends.\<close>

definition strip_chars :: "(nat \<Rightarrow> bool) \<Rightarrow> ustr \<Rightarrow> ustr" where
  "strip_chars P s = rev (dropWhile P (rev (dropWhile P s)))"

text \<open>
  \<open>str.upper()\<close> and \<open>str.lower()\<close>, exact on ASCII. Code points outside ASCII are
  left as they are, which is not what Python does for cased non-ASCII letters; the
  sanitizer only ever upper-cases code points of \<open>[A-Za-z0-9_-]\<close> (lemma
  \<open>legal_before_upper\<close>), so the approximation can only show in \<open>ext.lower()\<close> and in
  the seeding of the index from a directory listing.
\<close>

definition upper_cp :: "nat \<Rightarrow> nat" where
  "upper_cp c = (if 97 \<le> c \<and> c \<le> 122 then c - 32 else c)"

definition lower_cp :: "nat \<Rightarrow> nat" where
  "lower_cp c = (if 65 \<le> c \<and> c \<le> 90 then c + 32 else c)"

definition py_upper :: "ustr \<Rightarrow> ustr" where
  "py_upper s = map upper_cp s"

definition py_lower :: "ustr \<Rightarrow> ustr" where
  "py_lower s = map lower_cp s"

text \<open>\<open>s.startswith(prefix)\<close>.\<close>

definition startswith :: "ustr \<Rightarrow> ustr \<Rightarrow> bool" where
  "startswith s pre \<longleftrightarrow> take (length pre) s = pre"

text \<open>
  \<open>s.replace(old, "")\<close>: every non-overlapping occurrence of \<open>old\<close>, found from the
  left, is removed.
\<close>

function remove_all :: "ustr \<Rightarrow> ustr \<Rightarrow> ustr" where
  "remove_all old [] = []"
| "remove_all old (c # cs) =
     (if old \<noteq> [] \<and> take (length old) (c # cs) = old
      then remove_all old (drop (length old) (c # cs))
      else c # remove_all old cs)"
  by pat_completeness auto
termination
  by (relation "measure (\<lambda>(old, s). length s)") auto

text \<open>The decimal digits of \<open>f"{idx}"\<close> for a non-negative integer.\<close>

function dec_str :: "nat \<Rightarrow> ustr" where
  "dec_str n = (if n < 10 then [48 + n] else dec_str (n div 10) @ [48 + n mod 10])"
  by pat_completeness auto
termination
  by (relation "measure id") auto

declare dec_str.simps [simp del]


section \<open>NameSanitizer: \<open>core/utils.py\<close>\<close>

text \<open>
  \<^verbatim>\<open>
  _SANITIZE_RE = re.compile(r"[^A-Za-z0-9\-_]+")

  def sanitize_and_upper(s: str) -> str:
      s = (s or "").strip()
      s = _SANITIZE_RE.sub("-", s)
      s = re.sub(r"-{2,}", "-", s)
      return s.strip("-").upper()
  \<close>
  \<open>legal\<close> is the character class \<open>[A-Za-z0-9\-_]\<close>; \<open>illegal\<close> its complement, which
  the compiled pattern matches (line feeds included).
\<close>

definition legal :: "nat \<Rightarrow> bool" where
  "legal c \<longleftrightarrow>
     (65 \<le> c \<and> c \<le> 90) \<or> (97 \<le> c \<and> c \<le> 122) \<or> (48 \<le> c \<and> c \<le> 57) \<or> c = 45 \<or> c = 95"

definition illegal :: "nat \<Rightarrow> bool" where
  "illegal c \<longleftrightarrow> \<not> legal c"

text \<open>
  \<open>re.sub(P+, "-", s)\<close>: scanning from the left, every maximal run of code points
  matching \<open>P\<close> becomes one dash.
\<close>

function sub_runs :: "(nat \<Rightarrow> bool) \<Rightarrow> ustr \<Rightarrow> ustr" where
  "sub_runs P [] = []"
| "sub_runs P (c # cs) =
     (if P c then dash # sub_runs P (dropWhile P cs) else c # sub_runs P cs)"
  by pat_completeness auto
termination
  by (relation "measure (\<lambda>(P, s). length s)")
     (auto simp: le_imp_less_Suc length_dropWhile_le)

text \<open>
  \<open>re.sub(r"-{2,}", "-", s)\<close>: a run of two or more dashes becomes one dash; a single
  dash does not match and is copied.
\<close>

function squeeze_dashes :: "ustr \<Rightarrow> ustr" where
  "squeeze_dashes [] = []"
| "squeeze_dashes [c] = [c]"
| "squeeze_dashes (c # d # cs) =
     (if c = dash \<and> d = dash then dash # squeeze_dashes (dropWhile is_dash cs)
      else c # squeeze_dashes (d # cs))"
  by pat_completeness auto
termination
  by (relation "measure length")
     (auto simp: le_imp_less_Suc length_dropWhile_le less_Suc_eq_le le_SucI)

text \<open>
  The parameter is annotated \<open>str\<close>; for a string \<open>s or ""\<close> is \<open>s\<close> itself.
\<close>

definition sanitize_and_upper :: "ustr \<Rightarrow> ustr" where
  "sanitize_and_upper s0 =
     (let s = strip_chars is_space s0;
          s = sub_runs illegal s;
          s = squeeze_dashes s
      in py_upper (strip_chars is_dash s))"

text \<open>
  The component contract of the sanitizer: only \<open>[A-Z0-9-_]\<close>, no dash at either end,
  no two dashes in a row.
\<close>

definition token_cp :: "nat \<Rightarrow> bool" where
  "token_cp c \<longleftrightarrow> (65 \<le> c \<and> c \<le> 90) \<or> (48 \<le> c \<and> c \<le> 57) \<or> c = 45 \<or> c = 95"

fun no_dash_run :: "ustr \<Rightarrow> bool" where
  "no_dash_run (c # d # cs) = ((c \<noteq> dash \<or> d \<noteq> dash) \<and> no_dash_run (d # cs))"
| "no_dash_run _ = True"

definition no_edge_dash :: "ustr \<Rightarrow> bool" where
  "no_edge_dash s \<longleftrightarrow> s = [] \<or> (hd s \<noteq> dash \<and> last s \<noteq> dash)"

definition token_contract :: "ustr \<Rightarrow> bool" where
  "token_contract s \<longleftrightarrow> list_all token_cp s \<and> no_edge_dash s \<and> no_dash_run s"

text \<open>
  Matchers for the two regular expressions compared below. \<open>tail_match\<close> decides
  \<open>(-?[A-Z0-9_])*\<close> up to the end of the string: a dash is not in \<open>[A-Z0-9_]\<close>, so the
  optional dash is taken exactly when the next code point is one.
  \<open>spec_regex\<close> follows the specification's words, \<open>^[A-Z0-9](-?[A-Z0-9_])*$\<close>;
  \<open>code_regex\<close> is \<open>^[A-Z0-9_](-?[A-Z0-9_])*$\<close>, which also admits a leading underscore.
\<close>

definition alnum_cp :: "nat \<Rightarrow> bool" where
  "alnum_cp c \<longleftrightarrow> (65 \<le> c \<and> c \<le> 90) \<or> (48 \<le> c \<and> c \<le> 57)"

definition word_cp :: "nat \<Rightarrow> bool" where
  "word_cp c \<longleftrightarrow> alnum_cp c \<or> c = 95"

fun tail_match :: "ustr \<Rightarrow> bool" where
  "tail_match [] = True"
| "tail_match [c] = word_cp c"
| "tail_match (c # d # cs) =
     (if c = dash then word_cp d \<and> tail_match cs else word_cp c \<and> tail_match (d # cs))"

fun spec_regex :: "ustr \<Rightarrow> bool" where
  "spec_regex [] = False"
| "spec_regex (c # cs) = (alnum_cp c \<and> tail_match cs)"

fun code_regex :: "ustr \<Rightarrow> bool" where
  "code_regex [] = False"
| "code_regex (c # cs) = (word_cp c \<and> tail_match cs)"


section \<open>NamePlanner: \<open>core/planner.py\<close>\<close>

text \<open>
  \<^verbatim>\<open>
  def plan_name(base: str, ext: str, existing: Set[str], duplicates: bool) -> str:
      base = sanitize_and_upper(base)
      ext = ext.lower()
      if not duplicates:
          return f"{base}{ext}"
      idx = 1
      while True:
          stem = f"{base}-{idx}"
          if stem not in existing:
              existing.add(stem)
              return f"{stem}{ext}"
          idx += 1
  \<close>
  The index \<open>existing\<close> is a Python set, hence finite: an \<open>fset\<close>. The function mutates
  it in place, so the model returns the name together with the index as the call leaves
  it. \<open>stem_of base idx\<close> is the candidate \<open>f"{base}-{idx}"\<close>.
\<close>

definition stem_of :: "ustr \<Rightarrow> nat \<Rightarrow> ustr" where
  "stem_of base idx = base @ ustr ''-'' @ dec_str idx"

text \<open>
  The \<open>while True\<close> loop. It terminates because the candidates of different \<open>idx\<close>
  differ and the index is finite: the number of occupied candidates from \<open>idx\<close> on
  drops with every round.
\<close>

function plan_loop :: "ustr \<Rightarrow> ustr \<Rightarrow> ustr fset \<Rightarrow> nat \<Rightarrow> ustr \<times> ustr fset" where
  "plan_loop base ext existing idx =
     (let stem = stem_of base idx
      in if stem |\<notin>| existing then (stem @ ext, finsert stem existing)
         else plan_loop base ext existing (idx + 1))"
  by pat_completeness auto
termination
proof (relation "measure (\<lambda>(base, ext, existing, idx).
          card {k. idx \<le> k \<and> stem_of base k |\<in>| existing})")
  fix base ext :: ustr and existing :: "ustr fset" and idx :: nat and stem :: ustr
  assume stem: "stem = stem_of base idx" and taken: "\<not> stem |\<notin>| existing"
  have digits: "dec_str m = dec_str n \<Longrightarrow> m = n" for m n
  proof (induction m arbitrary: n rule: dec_str.induct)
    case (1 m)
    have nonempty: "dec_str j \<noteq> []" for j
      by (subst dec_str.simps) simp
    show ?case
    proof (cases "m < 10")
      case small: True
      show ?thesis
      proof (cases "n < 10")
        case True
        with small 1(2) show ?thesis
          by (simp add: dec_str.simps [of m] dec_str.simps [of n])
      next
        case False
        with small 1(2) nonempty [of "n div 10"] show ?thesis
          by (simp add: dec_str.simps [of m] dec_str.simps [of n])
      qed
    next
      case big: False
      show ?thesis
      proof (cases "n < 10")
        case True
        with big 1(2) nonempty [of "m div 10"] show ?thesis
          by (simp add: dec_str.simps [of m] dec_str.simps [of n])
      next
        case False
        with big 1(2) have "dec_str (m div 10) = dec_str (n div 10)"
          and last_digit: "m mod 10 = n mod 10"
          by (simp_all add: dec_str.simps [of m] dec_str.simps [of n])
        with 1(1) big have "m div 10 = n div 10" by simp
        with last_digit show ?thesis by (metis div_mult_mod_eq)
      qed
    qed
  qed
  let ?A = "{k. idx + 1 \<le> k \<and> stem_of base k |\<in>| existing}"
  let ?B = "{k. idx \<le> k \<and> stem_of base k |\<in>| existing}"
  have "finite (stem_of base -` fset existing)"
    by (rule finite_vimageI) (auto simp: inj_on_def stem_of_def dest: digits)
  then have fin: "finite ?B"
    by (rule rev_finite_subset) auto
  have mem: "idx \<in> ?B" "idx \<notin> ?A" using stem taken by auto
  have "?A \<subseteq> ?B" by auto
  with mem have "?A \<subset> ?B" by blast
  then have "card ?A < card ?B" using fin by (rule psubset_card_mono [rotated])
  then show "((base, ext, existing, idx + 1), (base, ext, existing, idx))
      \<in> measure (\<lambda>(base, ext, existing, idx).
          card {k. idx \<le> k \<and> stem_of base k |\<in>| existing})"
    by simp
qed simp

declare plan_loop.simps [simp del]

definition plan_name :: "ustr \<Rightarrow> ustr \<Rightarrow> ustr fset \<Rightarrow> bool \<Rightarrow> ustr \<times> ustr fset" where
  "plan_name base0 ext0 existing duplicates =
     (let base = sanitize_and_upper base0;
          ext = py_lower ext0
      in if \<not> duplicates then (base @ ext, existing)
         else plan_loop base ext existing 1)"

text \<open>
  A sequence of calls with \<open>duplicates=True\<close> on one shared index, each call given by
  its \<open>(base, ext)\<close> arguments: the names returned, in call order, and the final index.
\<close>

fun plan_calls :: "(ustr \<times> ustr) list \<Rightarrow> ustr fset \<Rightarrow> ustr list \<times> ustr fset" where
  "plan_calls [] existing = ([], existing)"
| "plan_calls ((base, ext) # calls) existing =
     (case plan_name base ext existing True of
        (final, existing') \<Rightarrow>
          (case plan_calls calls existing' of (finals, existing'') \<Rightarrow> (final # finals, existing'')))"

text \<open>The stem of a returned name: the name without the extension it was given.\<close>

definition drop_ext :: "ustr \<Rightarrow> ustr \<Rightarrow> ustr" where
  "drop_ext final ext = take (length final - length ext) final"


section \<open>Paths and the file store\<close>

text \<open>
  A \<open>pathlib.Path\<close> is the list of its components below the anchor; the root (or the
  empty path) is \<open>[]\<close> and has the empty name. Drive letters are not modelled.
\<close>

type_synonym path = "ustr list"

definition path_name :: "path \<Rightarrow> ustr" where
  "path_name p = (if p = [] then [] else last p)"

definition path_parent :: "path \<Rightarrow> path" where
  "path_parent p = butlast p"

text \<open>
  \<open>Path.suffix\<close> and \<open>Path.stem\<close>: with \<open>i = name.rfind(".")\<close>, the suffix is
  \<open>name[i:]\<close> and the stem \<open>name[:i]\<close> when \<open>0 < i < len(name) - 1\<close>; otherwise the
  suffix is empty and the stem is the whole name. \<open>after_dot\<close> is \<open>name[i+1:]\<close>.
\<close>

definition after_dot :: "ustr \<Rightarrow> ustr" where
  "after_dot n = rev (takeWhile (\<lambda>c. c \<noteq> 46) (rev n))"

definition has_suffix :: "ustr \<Rightarrow> bool" where
  "has_suffix n \<longleftrightarrow> 46 \<in> set n \<and> after_dot n \<noteq> [] \<and> length (after_dot n) + 1 < length n"

definition path_suffix :: "path \<Rightarrow> ustr" where
  "path_suffix p = (let n = path_name p in if has_suffix n then 46 # after_dot n else [])"

definition path_stem :: "path \<Rightarrow> ustr" where
  "path_stem p =
     (let n = path_name p
      in if has_suffix n then take (length n - length (after_dot n) - 1) n else n)"

text \<open>\<open>str(path)\<close>, rendered with a slash before every component.\<close>

definition path_str :: "path \<Rightarrow> ustr" where
  "path_str p = concat (map (\<lambda>c. 47 # c) p)"

datatype error =
  FileNotFoundError | FileExistsError | PermissionError | ValueError | KeyError | RuntimeError

text \<open>
  \<open>Path.with_name\<close> raises \<open>ValueError\<close> when the path has an empty name, and when the
  new name is empty, is \<open>"."\<close> or contains the separator.
\<close>

definition with_name :: "path \<Rightarrow> ustr \<Rightarrow> error + path" where
  "with_name p n =
     (if path_name p = [] then Inl ValueError
      else if n = [] \<or> n = ustr ''.'' \<or> 47 \<in> set n then Inl ValueError
      else Inr (path_parent p @ [n]))"

text \<open>
  The disk, as far as the program can observe it. \<open>files\<close> lists the regular files
  with their contents, one entry per path, in the order the operating system lists
  them; directories are implicit. \<open>denied\<close> lists the paths on which the operating
  system refuses to create, replace or remove an entry (a read-only directory, a file
  held open on Windows): the source of the filesystem errors the program catches.
  Contents are abstract: the bytes of an input file by a number, a saved crop by the
  image it was cut from, the ledger by its rows.
\<close>

datatype content = Bytes nat | Crop path | Csv "ustr list list"

datatype platform = Posix | Windows

record filesys =
  files :: "(path \<times> content) list"
  denied :: "path list"

definition exists :: "filesys \<Rightarrow> path \<Rightarrow> bool" where
  "exists fs p \<longleftrightarrow> map_of (files fs) p \<noteq> None"

text \<open>
  \<open>Path.rename(target)\<close>, that is \<open>os.rename\<close>. A missing source raises
  \<open>FileNotFoundError\<close>. On POSIX an existing target file is replaced silently; on
  Windows it raises \<open>FileExistsError\<close>.
\<close>

definition os_rename :: "platform \<Rightarrow> filesys \<Rightarrow> path \<Rightarrow> path \<Rightarrow> error + filesys" where
  "os_rename plat fs src dst =
     (case map_of (files fs) src of
        None \<Rightarrow> Inl FileNotFoundError
      | Some c \<Rightarrow>
          if src \<in> set (denied fs) \<or> dst \<in> set (denied fs) then Inl PermissionError
          else if plat = Windows \<and> exists fs dst \<and> dst \<noteq> src then Inl FileExistsError
          else Inr (fs\<lparr>files := AList.update dst c (AList.delete src (files fs))\<rparr>))"

text \<open>A file is written (created or truncated) unless the path is denied.\<close>

definition write_file :: "filesys \<Rightarrow> path \<Rightarrow> content \<Rightarrow> error + filesys" where
  "write_file fs p c =
     (if p \<in> set (denied fs) then Inl PermissionError
      else Inr (fs\<lparr>files := AList.update p c (files fs)\<rparr>))"

text \<open>\<open>d\<close> is a proper ancestor of \<open>p\<close>; \<open>p\<close> is an entry directly inside \<open>d\<close>.\<close>

definition below :: "path \<Rightarrow> path \<Rightarrow> bool" where
  "below d p \<longleftrightarrow> length d < length p \<and> take (length d) p = d"

definition child_of :: "path \<Rightarrow> path \<Rightarrow> bool" where
  "child_of d p \<longleftrightarrow> p \<noteq> [] \<and> path_parent p = d"


section \<open>Remaining helpers of \<open>core/utils.py\<close>\<close>

text \<open>
  \<^verbatim>\<open>
  IMG_EXTS = {".jpg", ".jpeg", ".png", ".bmp", ".tif", ".tiff", ".webp"}

  def iter_images(folder: Path, recursive: bool) -> Iterable[Path]:
      it = folder.rglob("*") if recursive else folder.glob("*")
      for p in it:
          if p.is_file() and p.suffix.lower() in IMG_EXTS:
              yield p
  \<close>
  Every entry of the store is a regular file, so \<open>is_file\<close> holds of each path listed.
\<close>

definition IMG_EXTS :: "ustr list" where
  "IMG_EXTS = [ustr ''.jpg'', ustr ''.jpeg'', ustr ''.png'', ustr ''.bmp'', ustr ''.tif'',
               ustr ''.tiff'', ustr ''.webp'']"

definition iter_images :: "filesys \<Rightarrow> path \<Rightarrow> bool \<Rightarrow> path list" where
  "iter_images fs folder recursive =
     filter (\<lambda>p. (if recursive then below folder p else child_of folder p)
                 \<and> py_lower (path_suffix p) \<in> set IMG_EXTS)
       (map fst (files fs))"

text \<open>
  \<open>ensure_dir\<close> is \<open>mkdir(parents=True, exist_ok=True)\<close>: it raises when a regular
  file stands at the path, or the path is denied, and otherwise leaves the files alone.
\<close>

definition ensure_dir :: "filesys \<Rightarrow> path \<Rightarrow> error + filesys" where
  "ensure_dir fs p =
     (if exists fs p then Inl FileExistsError
      else if p \<in> set (denied fs) then Inl PermissionError
      else Inr fs)"

text \<open>
  \<open>safe_clean_dir\<close> removes what is below the directory and swallows every error, so a
  denied file stays. The count it returns only feeds a log line and is left out.
\<close>

definition safe_clean_dir :: "filesys \<Rightarrow> path \<Rightarrow> filesys" where
  "safe_clean_dir fs target =
     fs\<lparr>files := filter (\<lambda>(p, c). \<not> below target p \<or> p \<in> set (denied fs)) (files fs)\<rparr>"


section \<open>TwoPhaseRenamer: \<open>two_phase_rename\<close> in \<open>core/utils.py\<close>\<close>

text \<open>
  \<^verbatim>\<open>
  def two_phase_rename(pairs: List[Tuple[Path, Path]]) -> Tuple[int, int]:
      tmp_map = {}
      for src, dst in pairs:
          if not src.exists():
              continue
          tmp = src.with_name(f"__TMP__{uuid.uuid4().hex}__{src.name}")
          try:
              src.rename(tmp)
              tmp_map[tmp] = dst
          except Exception:
              pass
      ok = 0
      fail = 0
      for tmp, dst in tmp_map.items():
          try:
              if dst.exists():
                  fail += 1
                  try:
                      orig = dst.with_name(dst.name.replace("__TMP__", ""))
                      tmp.rename(orig)
                  except Exception:
                      pass
                  continue
              tmp.rename(dst)
              ok += 1
          except Exception:
              fail += 1
      return ok, fail
  \<close>
  The random tokens are a parameter: \<open>uuid4 k\<close> is the hex string of the \<open>k\<close>-th call
  of \<open>uuid.uuid4()\<close>. \<open>tmp_map\<close> is a dictionary, iterated in insertion order: an
  association list updated with \<open>AList.update\<close>. The functions return the store as they
  leave it, and either the exception that left the function or its result.
  \<open>with_name\<close> in the first loop stands outside the \<open>try\<close>, so its \<open>ValueError\<close>
  leaves the function.
\<close>

fun stage1 ::
  "platform \<Rightarrow> (nat \<Rightarrow> ustr) \<Rightarrow> nat \<Rightarrow> filesys \<Rightarrow> (path \<times> path) list \<Rightarrow> (path \<times> path) list
     \<Rightarrow> filesys \<times> (error + (path \<times> path) list)" where
  "stage1 plat uuid4 k fs tmp_map [] = (fs, Inr tmp_map)"
| "stage1 plat uuid4 k fs tmp_map ((src, dst) # pairs) =
     (if \<not> exists fs src then stage1 plat uuid4 k fs tmp_map pairs
      else case with_name src (ustr ''__TMP__'' @ uuid4 k @ ustr ''__'' @ path_name src) of
             Inl e \<Rightarrow> (fs, Inl e)
           | Inr tmp \<Rightarrow>
               (case os_rename plat fs src tmp of
                  Inl e \<Rightarrow> stage1 plat uuid4 (k + 1) fs tmp_map pairs
                | Inr fs' \<Rightarrow> stage1 plat uuid4 (k + 1) fs' (AList.update tmp dst tmp_map) pairs))"

text \<open>The inner \<open>try\<close> of the second loop: both of its failures are swallowed.\<close>

definition rollback :: "platform \<Rightarrow> filesys \<Rightarrow> path \<Rightarrow> path \<Rightarrow> filesys" where
  "rollback plat fs tmp dst =
     (case with_name dst (remove_all (ustr ''__TMP__'') (path_name dst)) of
        Inl e \<Rightarrow> fs
      | Inr orig \<Rightarrow> (case os_rename plat fs tmp orig of Inl e \<Rightarrow> fs | Inr fs' \<Rightarrow> fs'))"

fun stage2 ::
  "platform \<Rightarrow> filesys \<Rightarrow> (path \<times> path) list \<Rightarrow> nat \<Rightarrow> nat \<Rightarrow> filesys \<times> nat \<times> nat" where
  "stage2 plat fs [] ok fail = (fs, ok, fail)"
| "stage2 plat fs ((tmp, dst) # items) ok fail =
     (if exists fs dst then stage2 plat (rollback plat fs tmp dst) items ok (fail + 1)
      else case os_rename plat fs tmp dst of
             Inl e \<Rightarrow> stage2 plat fs items ok (fail + 1)
           | Inr fs' \<Rightarrow> stage2 plat fs' items (ok + 1) fail)"

definition two_phase_rename ::
  "platform \<Rightarrow> (nat \<Rightarrow> ustr) \<Rightarrow> filesys \<Rightarrow> (path \<times> path) list
     \<Rightarrow> filesys \<times> (error + nat \<times> nat)" where
  "two_phase_rename plat uuid4 fs pairs =
     (case stage1 plat uuid4 0 fs [] pairs of
        (fs1, Inl e) \<Rightarrow> (fs1, Inl e)
      | (fs1, Inr tmp_map) \<Rightarrow>
          (case stage2 plat fs1 tmp_map 0 0 of (fs2, ok, fail) \<Rightarrow> (fs2, Inr (ok, fail))))"


section \<open>MappingLedger and batch rename: \<open>core/renamer.py\<close>\<close>

text \<open>
  \<^verbatim>\<open>
  def write_mapping_csv(csv_path: Path, rows: List[List[str]]) -> None:
      csv_path.parent.mkdir(parents=True, exist_ok=True)
      with open(csv_path, "w", newline="", encoding="utf-8-sig") as f:
          w = csv.writer(f)
          w.writerow(["src_dir", "old_name", "ocr_text", "base", "final_name", "status"])
          w.writerows(rows)

  def perform_batch_rename(pairs, dry_run: bool) -> Tuple[int, int]:
      if dry_run:
          return (0, 0)
      return two_phase_rename(pairs)
  \<close>
  The ledger file is kept as its list of rows, header first; quoting and encoding of
  the CSV text are not modelled.
\<close>

definition ledger_header :: "ustr list" where
  "ledger_header = [ustr ''src_dir'', ustr ''old_name'', ustr ''ocr_text'', ustr ''base'',
                    ustr ''final_name'', ustr ''status'']"

definition write_mapping_csv :: "filesys \<Rightarrow> path \<Rightarrow> ustr list list \<Rightarrow> error + filesys" where
  "write_mapping_csv fs csv_path rows =
     (case ensure_dir fs (path_parent csv_path) of
        Inl e \<Rightarrow> Inl e
      | Inr fs' \<Rightarrow> write_file fs' csv_path (Csv (ledger_header # rows)))"

definition perform_batch_rename ::
  "platform \<Rightarrow> (nat \<Rightarrow> ustr) \<Rightarrow> filesys \<Rightarrow> (path \<times> path) list \<Rightarrow> bool
     \<Rightarrow> filesys \<times> (error + nat \<times> nat)" where
  "perform_batch_rename plat uuid4 fs pairs dry_run =
     (if dry_run then (fs, Inr (0, 0)) else two_phase_rename plat uuid4 fs pairs)"


section \<open>OCR client: \<open>core/ocr_client.py\<close>\<close>

text \<open>
  \<^verbatim>\<open>
  def ocr(self, image: Image.Image, prompt: str) -> str:
      api_key = self.cfg.api_key or os.environ.get("ARK_API_KEY")
      if not api_key:
          return "UNKNOWN"
      text = self._sdk_call(image, prompt, api_key)
      if text:
          return text
      return self._rest_call(image, prompt, api_key)
  \<close>
  \<open>_sdk_call\<close> and \<open>_rest_call\<close> talk to the remote service and catch its failures;
  what they return for the image and prompt at hand is a parameter, as a function of
  the key. \<open>env_key\<close> is \<open>os.environ.get("ARK_API_KEY")\<close>.
\<close>

record ark_config =
  model :: ustr
  api_key :: "ustr option"
  base_url :: ustr

definition DEFAULT_ARK_BASE_URL :: ustr where
  "DEFAULT_ARK_BASE_URL = ustr ''https://ark.cn-beijing.volces.com/api/v3''"

text \<open>Truth value of an \<open>Optional[str]\<close>: \<open>None\<close> and \<open>""\<close> are false.\<close>

definition truthy :: "ustr option \<Rightarrow> bool" where
  "truthy v \<longleftrightarrow> (case v of None \<Rightarrow> False | Some s \<Rightarrow> s \<noteq> [])"

definition ocr ::
  "ark_config \<Rightarrow> ustr option \<Rightarrow> (ustr \<Rightarrow> ustr) \<Rightarrow> (ustr \<Rightarrow> ustr) \<Rightarrow> ustr" where
  "ocr cfg env_key sdk_call rest_call =
     (case (if truthy (api_key cfg) then api_key cfg else env_key) of
        None \<Rightarrow> ustr ''UNKNOWN''
      | Some key \<Rightarrow>
          if key = [] then ustr ''UNKNOWN''
          else let text = sdk_call key in if text \<noteq> [] then text else rest_call key)"


section \<open>Detections: \<open>core/detector.py\<close>\<close>

text \<open>
  A detection carries the class name and the box; boxes are in pixel coordinates
  (the source holds them as floats). \<open>merge_boxes_xyxy\<close> is the smallest enclosing box,
  \<open>None\<close> for no boxes.
\<close>

type_synonym box = "int \<times> int \<times> int \<times> int"

record detection =
  cls_name :: ustr
  xyxy :: box

fun merge_boxes_xyxy :: "box list \<Rightarrow> box option" where
  "merge_boxes_xyxy [] = None"
| "merge_boxes_xyxy ((x1, y1, x2, y2) # boxes) =
     (case merge_boxes_xyxy boxes of
        None \<Rightarrow> Some (x1, y1, x2, y2)
      | Some (a1, b1, a2, b2) \<Rightarrow> Some (min x1 a1, min y1 b1, max x2 a2, max y2 b2))"


section \<open>BatchOrchestrator: \<open>AiWorker.run\<close> in \<open>ui/pages/ai_task_page.py\<close>\<close>

text \<open>
  The fields of \<open>TaskParams\<close> the control flow reads (weights and device only reach
  the detector, which is external).
\<close>

record task_params =
  input_dir :: path
  crops_dir :: "path option"
  save_crops :: bool
  out_root :: path
  clean_out :: bool
  target_class_name :: ustr
  ark_model :: ustr
  ark_key :: ustr
  prompt :: ustr
  recursive :: bool
  duplicates :: bool
  dry_run :: bool

text \<open>
  What the run meets outside the program: the platform and the random tokens of the
  renamer, the environment variable, whether the detector can be constructed, the
  cancel flag as read at the top of iteration \<open>idx\<close>, whether an image opens, what the
  detector returns for it (or the exception it raises), and what the OCR service
  answers for the crop of an image.
\<close>

record world =
  platform :: platform
  uuid4 :: "nat \<Rightarrow> ustr"
  env_ark_key :: "ustr option"
  detector_loads :: bool
  cancel_is_set :: "nat \<Rightarrow> bool"
  image_opens :: "path \<Rightarrow> bool"
  detect_for_image :: "path \<Rightarrow> error + detection list"
  sdk_answer :: "path \<Rightarrow> box \<Rightarrow> ustr \<Rightarrow> ustr \<Rightarrow> ustr"
  rest_answer :: "path \<Rightarrow> box \<Rightarrow> ustr \<Rightarrow> ustr \<Rightarrow> ustr"

text \<open>
  \<^verbatim>\<open>
  def collect_existing_basenames(folder: Path) -> Set[str]:
      exists = set()
      for p in folder.glob("*"):
          if p.is_file():
              exists.add(p.stem.upper())
      return exists
  \<close>
\<close>

definition collect_existing_basenames :: "filesys \<Rightarrow> path \<Rightarrow> ustr fset" where
  "collect_existing_basenames fs folder =
     fset_of_list (map (\<lambda>p. py_upper (path_stem p)) (filter (child_of folder) (map fst (files fs))))"

text \<open>The local state of the loop in \<open>run\<close>, with the store it works on.\<close>

record loop_state =
  store :: filesys
  cleaned_subdirs :: "path set"
  existing_map :: "path \<rightharpoonup> ustr fset"
  rows :: "ustr list list"
  plan_pairs :: "(path \<times> path) list"

text \<open>
  \<^verbatim>\<open>
  try:
      rel = img_path.parent.relative_to(in_dir)
      first = rel.parts[0] if rel.parts else in_dir.name
  except Exception:
      first = img_path.parent.name
  sub_out = out_base / f"{first}_output"
  \<close>
\<close>

definition first_segment :: "path \<Rightarrow> path \<Rightarrow> ustr" where
  "first_segment in_dir img_path =
     (let parent = path_parent img_path
      in if take (length in_dir) parent = in_dir
         then (case drop (length in_dir) parent of [] \<Rightarrow> path_name in_dir | part # _ \<Rightarrow> part)
         else path_name parent)"

definition sub_out_of :: "task_params \<Rightarrow> path \<Rightarrow> path" where
  "sub_out_of p img_path = out_root p @ [first_segment (input_dir p) img_path @ ustr ''_output'']"

text \<open>
  \<^verbatim>\<open>
  if sub_out not in cleaned_subdirs:
      ensure_dir(sub_out)
      if p.clean_out:
          cnt = safe_clean_dir(sub_out)
      cleaned_subdirs.add(sub_out)
  if sub_out not in existing_map:
      existing_map[sub_out] = collect_existing_basenames(sub_out)
  \<close>
\<close>

definition prepare_sub_out :: "task_params \<Rightarrow> loop_state \<Rightarrow> path \<Rightarrow> error + loop_state" where
  "prepare_sub_out p st sub_out =
     (case (if sub_out \<notin> cleaned_subdirs st
            then (case ensure_dir (store st) sub_out of
                    Inl e \<Rightarrow> Inl e
                  | Inr fs \<Rightarrow>
                      Inr (st\<lparr>store := (if clean_out p then safe_clean_dir fs sub_out else fs),
                              cleaned_subdirs := insert sub_out (cleaned_subdirs st)\<rparr>))
            else Inr st) of
        Inl e \<Rightarrow> Inl e
      | Inr st1 \<Rightarrow>
          Inr (if existing_map st1 sub_out = None
               then st1\<lparr>existing_map :=
                          (existing_map st1)(sub_out \<mapsto> collect_existing_basenames (store st1) sub_out)\<rparr>
               else st1))"

text \<open>
  \<^verbatim>\<open>
  if crop_dir is not None:
      try:
          stem = f"{img_path.parent.name}_{img_path.stem}_cropped"
          crop.save(crop_dir / f"{stem}{img_path.suffix.lower()}")
      except Exception:
          pass
  \<close>
\<close>

definition save_crop :: "filesys \<Rightarrow> path option \<Rightarrow> path \<Rightarrow> filesys" where
  "save_crop fs crop_dir img_path =
     (case crop_dir of
        None \<Rightarrow> fs
      | Some dir \<Rightarrow>
          (let stem = path_name (path_parent img_path) @ ustr ''_'' @ path_stem img_path @ ustr ''_cropped''
           in case write_file fs (dir @ [stem @ py_lower (path_suffix img_path)]) (Crop img_path) of
                Inl e \<Rightarrow> fs
              | Inr fs' \<Rightarrow> fs'))"

text \<open>
  The error marker \<open>"[OCR\<close>\<open>...\<close>\<open>]"\<close> of the OCR client: the two code points between
  \<open>[OCR\<close> and \<open>]\<close> are U+9519 and U+8BEF. \<open>no_text\<close> is the orchestrator's test
  \<open>not ocr_text or ocr_text.startswith(marker)\<close>.
\<close>

definition OCR_ERROR_MARKER :: ustr where
  "OCR_ERROR_MARKER = ustr ''[OCR'' @ [38169, 35823] @ ustr '']''"

definition no_text :: "ustr \<Rightarrow> bool" where
  "no_text ocr_text \<longleftrightarrow> ocr_text = [] \<or> startswith ocr_text OCR_ERROR_MARKER"

definition ledger_row :: "path \<Rightarrow> ustr \<Rightarrow> ustr \<Rightarrow> ustr \<Rightarrow> ustr \<Rightarrow> ustr list" where
  "ledger_row img_path ocr_text base final status =
     [path_str (path_parent img_path), path_name img_path, ocr_text, base, final, status]"

definition matches_target :: "task_params \<Rightarrow> detection \<Rightarrow> bool" where
  "matches_target p d \<longleftrightarrow>
     py_lower (strip_chars is_space (cls_name d)) = py_lower (strip_chars is_space (target_class_name p))"

text \<open>
  The body of the loop for one image, after the cancellation test. An exception that
  the body does not catch leaves \<open>run\<close>; it is returned with the store as it stood.
  The \<open>log\<close> and \<open>progress\<close> signals only report and are left out; the crop itself is
  an image operation of the imaging library and appears only as the box handed to the
  OCR service.
\<close>

definition process_image ::
  "world \<Rightarrow> task_params \<Rightarrow> path option \<Rightarrow> loop_state \<Rightarrow> path \<Rightarrow> (error \<times> filesys) + loop_state" where
  "process_image w p crop_dir st img_path =
     (let sub_out = sub_out_of p img_path in
      case prepare_sub_out p st sub_out of
        Inl e \<Rightarrow> Inl (e, store st)
      | Inr st \<Rightarrow>
          if \<not> image_opens w img_path
          then Inr (st\<lparr>rows := rows st @ [ledger_row img_path [] [] [] (ustr ''READ_FAIL'')]\<rparr>)
          else case detect_for_image w img_path of
            Inl e \<Rightarrow> Inl (e, store st)
          | Inr dets \<Rightarrow>
              (let target_boxes = map xyxy (filter (matches_target p) dets) in
               if target_boxes = []
               then Inr (st\<lparr>rows := rows st @ [ledger_row img_path [] [] [] (ustr ''NO_DET'')]\<rparr>)
               else case merge_boxes_xyxy target_boxes of
                 None \<Rightarrow> Inl (ValueError, store st)
               | Some crop_box \<Rightarrow>
                   (let st = st\<lparr>store := save_crop (store st) crop_dir img_path\<rparr>;
                        ocr_text = ocr \<lparr>model = ark_model p, api_key = Some (ark_key p),
                                         base_url = DEFAULT_ARK_BASE_URL\<rparr>
                                     (env_ark_key w)
                                     (sdk_answer w img_path crop_box (prompt p))
                                     (rest_answer w img_path crop_box (prompt p))
                    in if no_text ocr_text
                       then Inr (st\<lparr>rows := rows st @ [ledger_row img_path ocr_text [] [] (ustr ''NO_TEXT'')]\<rparr>)
                       else case existing_map st sub_out of
                         None \<Rightarrow> Inl (KeyError, store st)
                       | Some existing \<Rightarrow>
                           (let base = sanitize_and_upper ocr_text in
                            case plan_name base (py_lower (path_suffix img_path)) existing (duplicates p) of
                              (final, existing') \<Rightarrow>
                                Inr (st\<lparr>existing_map := (existing_map st)(sub_out \<mapsto> existing'),
                                        plan_pairs := plan_pairs st @ [(img_path, sub_out @ [final])],
                                        rows := rows st @ [ledger_row img_path ocr_text base final (ustr ''PLANNED'')]\<rparr>)))))"

text \<open>
  \<^verbatim>\<open>
  for idx, img_path in enumerate(images, start=1):
      if self._cancel.is_set():
          break
      ...
  \<close>
\<close>

fun process_images ::
  "world \<Rightarrow> task_params \<Rightarrow> path option \<Rightarrow> nat \<Rightarrow> loop_state \<Rightarrow> path list
     \<Rightarrow> (error \<times> filesys) + loop_state" where
  "process_images w p crop_dir idx st [] = Inr st"
| "process_images w p crop_dir idx st (img_path # images) =
     (if cancel_is_set w idx then Inr st
      else case process_image w p crop_dir st img_path of
             Inl e \<Rightarrow> Inl e
           | Inr st' \<Rightarrow> process_images w p crop_dir (idx + 1) st' images)"

text \<open>
  Steps 1 to 3 of \<open>run\<close>: the output root, the crop directory, the detector.
  \<^verbatim>\<open>
  out_base = p.out_root
  ensure_dir(out_base)
  crop_dir = None
  if p.save_crops and p.crops_dir:
      crop_dir = p.crops_dir
      ensure_dir(crop_dir)
  yolo = Detector(YoloConfig(weights=p.weights, device=p.device))
  ocr = OCRClient(ArkConfig(model=p.ark_model, api_key=p.ark_key))
  \<close>
\<close>

definition run_setup :: "world \<Rightarrow> task_params \<Rightarrow> filesys \<Rightarrow> error + path option" where
  "run_setup w p fs =
     (case ensure_dir fs (out_root p) of
        Inl e \<Rightarrow> Inl e
      | Inr _ \<Rightarrow>
          (case (if save_crops p
                 then (case crops_dir p of
                         None \<Rightarrow> Inr None
                       | Some dir \<Rightarrow> (case ensure_dir fs dir of Inl e \<Rightarrow> Inl e | Inr _ \<Rightarrow> Inr (Some dir)))
                 else Inr None) of
             Inl e \<Rightarrow> Inl e
           | Inr crop_dir \<Rightarrow> if detector_loads w then Inr crop_dir else Inl RuntimeError))"

text \<open>
  \<open>run\<close> up to the point where the renamer is called. \<open>Fatal\<close> is the \<open>except\<close> branch
  (the exception, \<open>stats["total"]\<close> as set so far, the store); \<open>NoImages\<close> is the early
  return for an empty listing; \<open>Planned\<close> is the state after the ledger was written.
  \<^verbatim>\<open>
  images = list(iter_images(in_dir, p.recursive))
  total = len(images)
  stats["total"] = total
  if total == 0:
      self.log.emit("[WARN] ...")
      self.finished.emit(0, stats)
      return
  ... the loop ...
  write_mapping_csv(p.input_dir / "rename_mapping.csv", rows)
  \<close>
\<close>

datatype planning = Fatal error nat filesys | NoImages filesys | Planned loop_state nat

definition ledger_path :: "task_params \<Rightarrow> path" where
  "ledger_path p = input_dir p @ [ustr ''rename_mapping.csv'']"

definition plan_phase :: "world \<Rightarrow> task_params \<Rightarrow> filesys \<Rightarrow> planning" where
  "plan_phase w p fs =
     (case run_setup w p fs of
        Inl e \<Rightarrow> Fatal e 0 fs
      | Inr crop_dir \<Rightarrow>
          (let images = iter_images fs (input_dir p) (recursive p);
               total = length images
           in if total = 0 then NoImages fs
              else case process_images w p crop_dir 1
                          \<lparr>store = fs, cleaned_subdirs = {}, existing_map = Map.empty,
                           rows = [], plan_pairs = []\<rparr> images of
                Inl (e, fs') \<Rightarrow> Fatal e total fs'
              | Inr st \<Rightarrow>
                  (case write_mapping_csv (store st) (ledger_path p) (rows st) of
                     Inl e \<Rightarrow> Fatal e total (store st)
                   | Inr fs' \<Rightarrow> Planned (st\<lparr>store := fs'\<rparr>) total)))"

text \<open>
  What \<open>run\<close> reports through \<open>finished.emit(code, stats)\<close>, and the store it leaves.
  \<^verbatim>\<open>
  stats = {"total": 0, "planned": 0, "renamed_ok": 0, "renamed_fail": 0}
  code = 0
  try:
      ...
      ok, fail = perform_batch_rename(plan_pairs, p.dry_run)
      stats["planned"] = len(plan_pairs)
      stats["renamed_ok"] = ok
      stats["renamed_fail"] = fail
  except Exception as e:
      code = 1
  self.finished.emit(code, stats)
  \<close>
\<close>

record report =
  code :: nat
  total :: nat
  planned :: nat
  renamed_ok :: nat
  renamed_fail :: nat
  disk :: filesys

definition run :: "world \<Rightarrow> task_params \<Rightarrow> filesys \<Rightarrow> report" where
  "run w p fs =
     (case plan_phase w p fs of
        Fatal e n fs' \<Rightarrow>
          \<lparr>code = 1, total = n, planned = 0, renamed_ok = 0, renamed_fail = 0, disk = fs'\<rparr>
      | NoImages fs' \<Rightarrow>
          \<lparr>code = 0, total = 0, planned = 0, renamed_ok = 0, renamed_fail = 0, disk = fs'\<rparr>
      | Planned st n \<Rightarrow>
          (case perform_batch_rename (platform w) (uuid4 w) (store st) (plan_pairs st) (dry_run p) of
             (fs', Inl e) \<Rightarrow>
               \<lparr>code = 1, total = n, planned = 0, renamed_ok = 0, renamed_fail = 0, disk = fs'\<rparr>
           | (fs', Inr (ok, fail)) \<Rightarrow>
               \<lparr>code = 0, total = n, planned = length (plan_pairs st), renamed_ok = ok,
                renamed_fail = fail, disk = fs'\<rparr>))"



section \<open>Concrete inputs\<close>

text \<open>
  A directory \<open>photos\<close> with two files, and the same directory with one file that the
  operating system refuses to rename.
\<close>

definition file_A :: path where
  "file_A = [ustr ''photos'', ustr ''A.png'']"

definition file_B :: path where
  "file_B = [ustr ''photos'', ustr ''B.png'']"

definition file_X :: path where
  "file_X = [ustr ''photos'', ustr ''X.png'']"

definition two_files :: filesys where
  "two_files = \<lparr>files = [(file_A, Bytes 1), (file_B, Bytes 2)], denied = []\<rparr>"

definition locked_file :: filesys where
  "locked_file = \<lparr>files = [(file_A, Bytes 1)], denied = [file_A]\<rparr>"

definition sample_uuid4 :: "nat \<Rightarrow> ustr" where
  "sample_uuid4 k = (if k = 0 then ustr ''3f2b8c1e9d4a4f6b8e7a1c2d3e4f5a6b''
                     else ustr ''9a8b7c6d5e4f4a3b2c1d0e9f8a7b6c5d'')"

text \<open>
  A run over the directory \<open>in\<close>, which holds one image and one text file, with no API
  key configured, a detector that finds one box of the target class, and crops saved
  to \<open>crops\<close>. \<open>no_images_disk\<close> is the same directory without the image.
\<close>

definition sample_params :: task_params where
  "sample_params =
     \<lparr>input_dir = [ustr ''in''], crops_dir = Some [ustr ''crops''], save_crops = True,
      out_root = [ustr ''out''], clean_out = True, target_class_name = ustr ''tag'',
      ark_model = ustr ''doubao'', ark_key = [], prompt = ustr ''read the tag'',
      recursive = False, duplicates = True, dry_run = False\<rparr>"

definition sample_world :: world where
  "sample_world =
     \<lparr>platform = Posix, uuid4 = sample_uuid4, env_ark_key = None, detector_loads = True,
      cancel_is_set = (\<lambda>idx. False), image_opens = (\<lambda>img. True),
      detect_for_image = (\<lambda>img. Inr [\<lparr>cls_name = ustr ''Tag '', xyxy = (0, 0, 10, 10)\<rparr>,
                                        \<lparr>cls_name = ustr ''label'', xyxy = (5, 5, 20, 20)\<rparr>]),
      sdk_answer = (\<lambda>img crop_box prompt key. []),
      rest_answer = (\<lambda>img crop_box prompt key. [])\<rparr>"

definition sample_image :: path where
  "sample_image = [ustr ''in'', ustr ''a.png'']"

definition sample_disk :: filesys where
  "sample_disk =
     \<lparr>files = [(sample_image, Bytes 1), ([ustr ''in'', ustr ''notes.txt''], Bytes 2)], denied = []\<rparr>"

definition no_images_disk :: filesys where
  "no_images_disk = \<lparr>files = [([ustr ''in'', ustr ''notes.txt''], Bytes 2)], denied = []\<rparr>"

definition fresh_state :: "filesys \<Rightarrow> loop_state" where
  "fresh_state fs =
     \<lparr>store = fs, cleaned_subdirs = {}, existing_map = Map.empty, rows = [], plan_pairs = []\<rparr>"


section \<open>Properties of the sanitizer\<close>

lemmas sanitize_eval =
  sanitize_and_upper_def strip_chars_def is_space_def illegal_def legal_def dash_def is_dash_def
  py_upper_def upper_cp_def

lemmas contract_eval =
  token_contract_def token_cp_def no_edge_dash_def dash_def word_cp_def alnum_cp_def

lemma set_sub_runs: "c \<in> set (sub_runs P s) \<Longrightarrow> c = dash \<or> (c \<in> set s \<and> \<not> P c)"
  by (induction P s rule: sub_runs.induct) (auto split: if_splits dest: set_dropWhileD)

lemma set_squeeze_dashes: "c \<in> set (squeeze_dashes s) \<Longrightarrow> c \<in> set s"
  by (induction s rule: squeeze_dashes.induct) (auto split: if_splits dest: set_dropWhileD)

lemma squeeze_dashes_Nil [simp]: "squeeze_dashes s = [] \<longleftrightarrow> s = []"
  by (induction s rule: squeeze_dashes.induct) auto

lemma hd_squeeze_dashes: "s \<noteq> [] \<Longrightarrow> hd (squeeze_dashes s) = hd s"
  by (induction s rule: squeeze_dashes.induct) auto

lemma no_dash_run_Cons:
  "no_dash_run (c # s) \<longleftrightarrow> (s = [] \<or> c \<noteq> dash \<or> hd s \<noteq> dash) \<and> no_dash_run s"
  by (cases s) auto

lemma no_dash_run_squeeze: "no_dash_run (squeeze_dashes s)"
proof (induction s rule: squeeze_dashes.induct)
  case (3 c d cs)
  show ?case
  proof (cases "c = dash \<and> d = dash")
    case True
    let ?r = "dropWhile is_dash cs"
    have "squeeze_dashes ?r = [] \<or> hd (squeeze_dashes ?r) \<noteq> dash"
    proof (cases "?r = []")
      case False
      then have "hd ?r \<noteq> dash"
        using hd_dropWhile [of is_dash cs] by (simp add: is_dash_def)
      with False show ?thesis by (simp add: hd_squeeze_dashes)
    qed simp
    with True 3 show ?thesis by (simp add: no_dash_run_Cons)
  next
    case False
    with 3 show ?thesis by (auto simp: no_dash_run_Cons hd_squeeze_dashes)
  qed
qed simp_all

lemma no_dash_run_append:
  "no_dash_run (xs @ ys) \<longleftrightarrow>
     no_dash_run xs \<and> no_dash_run ys \<and> (xs = [] \<or> ys = [] \<or> last xs \<noteq> dash \<or> hd ys \<noteq> dash)"
  by (induction xs rule: no_dash_run.induct) (auto simp: no_dash_run_Cons)

lemma no_dash_run_rev: "no_dash_run (rev s) = no_dash_run s"
  by (induction s) (auto simp: no_dash_run_append no_dash_run_Cons hd_rev last_rev)

lemma no_dash_run_dropWhile: "no_dash_run s \<Longrightarrow> no_dash_run (dropWhile P s)"
  by (induction s) (auto simp: no_dash_run_Cons)

lemma no_dash_run_strip: "no_dash_run s \<Longrightarrow> no_dash_run (strip_chars P s)"
  by (simp add: strip_chars_def no_dash_run_rev no_dash_run_dropWhile)

lemma set_strip_chars: "c \<in> set (strip_chars P s) \<Longrightarrow> c \<in> set s"
proof -
  assume "c \<in> set (strip_chars P s)"
  then have "c \<in> set (dropWhile P (rev (dropWhile P s)))"
    by (simp add: strip_chars_def)
  then have "c \<in> set (rev (dropWhile P s))" by (rule set_dropWhileD)
  then have "c \<in> set (dropWhile P s)" by simp
  then show ?thesis by (rule set_dropWhileD)
qed

lemma strip_chars_edges:
  assumes "strip_chars P s \<noteq> []"
  shows "\<not> P (hd (strip_chars P s))" and "\<not> P (last (strip_chars P s))"
proof -
  let ?a = "dropWhile P s"
  let ?b = "dropWhile P (rev ?a)"
  from assms have b: "?b \<noteq> []" by (simp add: strip_chars_def)
  have a: "?a \<noteq> []"
  proof
    assume e: "?a = []"
    have "?b = []" unfolding e by simp
    with b show False by contradiction
  qed
  have "last (strip_chars P s) = hd ?b"
    using b by (simp add: strip_chars_def last_rev)
  with b show "\<not> P (last (strip_chars P s))"
    using hd_dropWhile [of P "rev ?a"] by simp
  have split: "rev ?a = takeWhile P (rev ?a) @ ?b" by simp
  have "hd (strip_chars P s) = last ?b"
    using b by (simp add: strip_chars_def hd_rev)
  also have "\<dots> = last (rev ?a)" using b split by (metis last_appendR)
  also have "\<dots> = hd ?a" using a by (simp add: last_rev)
  finally show "\<not> P (hd (strip_chars P s))"
    using hd_dropWhile [of P s] a by simp
qed

lemma strip_chars_id:
  assumes "s = [] \<or> (\<not> P (hd s) \<and> \<not> P (last s))"
  shows "strip_chars P s = s"
proof -
  have 1: "dropWhile P s = s"
    using assms by (auto simp: dropWhile_eq_self_iff)
  have 2: "dropWhile P (rev s) = rev s"
    using assms by (auto simp: dropWhile_eq_self_iff hd_rev)
  show ?thesis by (simp add: strip_chars_def 1 2)
qed

lemma sub_runs_id: "\<forall>c\<in>set s. \<not> P c \<Longrightarrow> sub_runs P s = s"
  by (induction s) auto

lemma squeeze_dashes_id: "no_dash_run s \<Longrightarrow> squeeze_dashes s = s"
  by (induction s rule: squeeze_dashes.induct) auto

lemma upper_cp_dash [simp]: "upper_cp c = dash \<longleftrightarrow> c = dash"
  by (auto simp: upper_cp_def dash_def)

lemma no_dash_run_upper: "no_dash_run (py_upper s) = no_dash_run s"
  unfolding py_upper_def by (induction s rule: no_dash_run.induct) auto

lemma no_edge_dash_upper: "no_edge_dash (py_upper s) = no_edge_dash s"
  by (cases "s = []") (auto simp: no_edge_dash_def py_upper_def hd_map last_map)

lemma upper_cp_legal: "legal c \<Longrightarrow> token_cp (upper_cp c)"
  by (auto simp: legal_def token_cp_def upper_cp_def)

lemma upper_cp_token: "token_cp c \<Longrightarrow> upper_cp c = c"
  by (auto simp: token_cp_def upper_cp_def)

text \<open>Only code points of \<open>[A-Za-z0-9_-]\<close> reach \<open>upper()\<close>.\<close>

lemma legal_before_upper:
  "c \<in> set (strip_chars is_dash (squeeze_dashes (sub_runs illegal (strip_chars is_space s))))
     \<Longrightarrow> legal c"
  by (auto dest!: set_strip_chars set_squeeze_dashes set_sub_runs
           simp: illegal_def legal_def dash_def)

lemma sanitize_contract: "token_contract (sanitize_and_upper s)"
proof -
  let ?t = "squeeze_dashes (sub_runs illegal (strip_chars is_space s))"
  let ?u = "strip_chars is_dash ?t"
  have out: "sanitize_and_upper s = py_upper ?u"
    by (simp add: sanitize_and_upper_def)
  have "list_all token_cp (py_upper ?u)"
    using legal_before_upper [of _ s] by (auto simp: py_upper_def list_all_iff upper_cp_legal)
  moreover have "no_edge_dash ?u"
    using strip_chars_edges [of is_dash ?t] by (auto simp: no_edge_dash_def is_dash_def)
  moreover have "no_dash_run ?u"
    by (rule no_dash_run_strip) (rule no_dash_run_squeeze)
  ultimately show ?thesis
    by (simp add: out token_contract_def no_dash_run_upper no_edge_dash_upper)
qed

lemma token_not_space: "token_cp c \<Longrightarrow> \<not> is_space c"
  by (auto simp: token_cp_def is_space_def)

lemma token_legal: "token_cp c \<Longrightarrow> legal c"
  by (auto simp: token_cp_def legal_def)

text \<open>A string that meets the contract is a fixed point of the sanitizer.\<close>

lemma sanitize_fixes_contract:
  assumes "token_contract s"
  shows "sanitize_and_upper s = s"
proof -
  from assms have all: "\<forall>c\<in>set s. token_cp c" and edge: "no_edge_dash s" and run: "no_dash_run s"
    by (auto simp: token_contract_def list_all_iff)
  have 1: "strip_chars is_space s = s"
  proof (cases "s = []")
    case False
    then have "hd s \<in> set s" "last s \<in> set s" by auto
    with all show ?thesis by (intro strip_chars_id) (auto dest: token_not_space)
  qed (simp add: strip_chars_def)
  have 2: "sub_runs illegal s = s"
    using all by (intro sub_runs_id) (auto simp: illegal_def dest: token_legal)
  have 3: "squeeze_dashes s = s" using run by (rule squeeze_dashes_id)
  have 4: "strip_chars is_dash s = s"
    using edge by (intro strip_chars_id) (auto simp: no_edge_dash_def is_dash_def)
  have 5: "py_upper s = s"
    using all by (auto simp: py_upper_def upper_cp_token intro: map_idI)
  show ?thesis by (simp add: sanitize_and_upper_def 1 2 3 4 5)
qed

lemma tail_match_iff:
  "tail_match s \<longleftrightarrow> list_all token_cp s \<and> no_dash_run s \<and> (s = [] \<or> last s \<noteq> dash)"
  by (induction s rule: tail_match.induct)
     (auto simp: no_dash_run_Cons word_cp_def alnum_cp_def token_cp_def dash_def)

text \<open>The contract and the regular expression with the leading underscore say the same.\<close>

lemma code_regex_iff: "code_regex s \<longleftrightarrow> s \<noteq> [] \<and> token_contract s"
proof (cases s)
  case (Cons c cs)
  show ?thesis
    unfolding Cons code_regex.simps tail_match_iff token_contract_def no_edge_dash_def
    by (cases cs) (auto simp: no_dash_run_Cons word_cp_def alnum_cp_def token_cp_def dash_def)
qed simp

text \<open>
  Claim C3, as stated: every output of \<open>sanitize_and_upper\<close> is empty or matches
  \<open>^[A-Z0-9](-?[A-Z0-9_])*$\<close>. It fails for the input \<open>"_"\<close>: the underscore is in the
  character class the sanitizer keeps and \<open>strip("-")\<close> does not remove it, so the
  output is \<open>"_"\<close>, which is not empty and does not start with \<open>[A-Z0-9]\<close>.
\<close>

theorem sanitize_leading_underscore_counterexample:
  "sanitize_and_upper (ustr ''_'') = ustr ''_''
   \<and> sanitize_and_upper (ustr ''_'') \<noteq> []
   \<and> \<not> spec_regex (sanitize_and_upper (ustr ''_''))"
  by (simp add: sanitize_eval alnum_cp_def)

text \<open>
  Claim C3, amended: for every input string the output of \<open>sanitize_and_upper\<close> is
  empty or matches \<open>^[A-Z0-9_](-?[A-Z0-9_])*$\<close> (the first character may also be an
  underscore); and, as the component contract says, the output contains only
  characters of \<open>[A-Z0-9-_]\<close>, has no leading or trailing dash, and has no run of
  dashes longer than one.
\<close>

theorem sanitize_output_shape:
  "(sanitize_and_upper s = [] \<or> code_regex (sanitize_and_upper s))
   \<and> list_all token_cp (sanitize_and_upper s)
   \<and> no_edge_dash (sanitize_and_upper s)
   \<and> no_dash_run (sanitize_and_upper s)"
  using sanitize_contract [of s] code_regex_iff [of "sanitize_and_upper s"]
  by (auto simp: token_contract_def)

theorem sanitize_output_shape_witness:
  "sanitize_and_upper (ustr ''  ab c--d__ ?? '') = ustr ''AB-C-D__''
   \<and> code_regex (ustr ''AB-C-D__'')
   \<and> list_all token_cp (ustr ''AB-C-D__'')
   \<and> no_edge_dash (ustr ''AB-C-D__'')
   \<and> no_dash_run (ustr ''AB-C-D__'')"
proof -
  have out: "sanitize_and_upper (ustr ''  ab c--d__ ?? '') = ustr ''AB-C-D__''"
    by (simp add: sanitize_eval)
  from sanitize_output_shape [of "ustr ''  ab c--d__ ?? ''"] show ?thesis
    unfolding out by (simp add: contract_eval)
qed

text \<open>
  Claim C9: \<open>sanitize_and_upper\<close> is idempotent:
  \<open>sanitize_and_upper(sanitize_and_upper(x)) == sanitize_and_upper(x)\<close> for every
  input string \<open>x\<close>.
\<close>

theorem sanitize_idempotent:
  "sanitize_and_upper (sanitize_and_upper x) = sanitize_and_upper x"
  by (rule sanitize_fixes_contract) (rule sanitize_contract)

theorem sanitize_idempotent_witness:
  "sanitize_and_upper (ustr '' a  b--_c '') = ustr ''A-B-_C''
   \<and> sanitize_and_upper (ustr ''A-B-_C'') = ustr ''A-B-_C''"
proof -
  have out: "sanitize_and_upper (ustr '' a  b--_c '') = ustr ''A-B-_C''"
    by (simp add: sanitize_eval)
  from sanitize_idempotent [of "ustr '' a  b--_c ''"] show ?thesis
    unfolding out by simp
qed


section \<open>Properties of the planner\<close>

lemmas plan_eval =
  plan_name_def plan_loop.simps stem_of_def dec_str.simps py_lower_def lower_cp_def drop_ext_def
  Let_def

text \<open>
  The loop returns the first free candidate at or after \<open>idx\<close>, and reserves it.
\<close>

lemma plan_loop_first_free:
  "\<exists>n. idx \<le> n \<and> stem_of base n |\<notin>| existing
       \<and> (\<forall>k. idx \<le> k \<and> k < n \<longrightarrow> stem_of base k |\<in>| existing)
       \<and> plan_loop base ext existing idx = (stem_of base n @ ext, finsert (stem_of base n) existing)"
proof (induction base ext existing idx rule: plan_loop.induct)
  case (1 base ext existing idx)
  show ?case
  proof (cases "stem_of base idx |\<notin>| existing")
    case True
    then have "plan_loop base ext existing idx
                 = (stem_of base idx @ ext, finsert (stem_of base idx) existing)"
      by (simp add: plan_loop.simps [of base ext existing idx] Let_def)
    with True show ?thesis by (intro exI [of _ idx]) auto
  next
    case False
    with 1 obtain n where n: "idx + 1 \<le> n" "stem_of base n |\<notin>| existing"
        "\<forall>k. idx + 1 \<le> k \<and> k < n \<longrightarrow> stem_of base k |\<in>| existing"
        "plan_loop base ext existing (idx + 1)
           = (stem_of base n @ ext, finsert (stem_of base n) existing)"
      by blast
    have below: "stem_of base k |\<in>| existing" if "idx \<le> k" "k < n" for k
    proof (cases "k = idx")
      case True
      with False show ?thesis by simp
    next
      case False
      with that n(3) show ?thesis by simp
    qed
    have "plan_loop base ext existing idx = plan_loop base ext existing (idx + 1)"
      using False by (simp add: plan_loop.simps [of base ext existing idx] Let_def)
    with n below show ?thesis by (intro exI [of _ n]) auto
  qed
qed

lemma plan_name_reserves:
  "\<exists>stem. stem |\<notin>| existing
     \<and> plan_name base ext existing True = (stem @ py_lower ext, finsert stem existing)"
  using plan_loop_first_free [of 1 "sanitize_and_upper base" existing "py_lower ext"]
  by (auto simp: plan_name_def)

lemma drop_ext_lower [simp]: "drop_ext (stem @ py_lower ext) ext = stem"
  by (simp add: drop_ext_def py_lower_def)

lemma plan_calls_fresh:
  "distinct (map2 drop_ext (fst (plan_calls calls existing)) (map snd calls))
   \<and> (\<forall>s \<in> set (map2 drop_ext (fst (plan_calls calls existing)) (map snd calls)). s |\<notin>| existing)"
proof (induction calls arbitrary: existing)
  case Nil
  show ?case by simp
next
  case (Cons call calls)
  obtain base ext where call: "call = (base, ext)" by (cases call)
  obtain stem where stem: "stem |\<notin>| existing"
      "plan_name base ext existing True = (stem @ py_lower ext, finsert stem existing)"
    using plan_name_reserves by blast
  let ?rest = "map2 drop_ext (fst (plan_calls calls (finsert stem existing))) (map snd calls)"
  have stems: "map2 drop_ext (fst (plan_calls (call # calls) existing)) (map snd (call # calls))
                 = stem # ?rest"
    by (simp add: call stem(2) split: prod.split)
  from Cons.IH [of "finsert stem existing"]
  have "distinct ?rest" and "\<forall>s \<in> set ?rest. s |\<notin>| finsert stem existing"
    by blast+
  with stem(1) show ?case unfolding stems by auto
qed

text \<open>
  Claim C5, as stated: with duplicates enabled the returned name is
  \<open>S + "-" + n + ext\<close>. It fails when \<open>ext\<close> has an upper-case letter, because
  \<open>plan_name\<close> lower-cases the extension first: for base \<open>"TAG"\<close>, extension \<open>".PNG"\<close> and
  an empty index the first free suffix is 1 and the claim gives \<open>"TAG-1.PNG"\<close>, while the
  code returns \<open>"TAG-1.png"\<close>.
\<close>

theorem plan_name_duplicates_ext_counterexample:
  "plan_name (ustr ''TAG'') (ustr ''.PNG'') {||} True = (ustr ''TAG-1.png'', {|ustr ''TAG-1''|})
   \<and> ustr ''TAG-1.png'' \<noteq> sanitize_and_upper (ustr ''TAG'') @ ustr ''-'' @ dec_str 1 @ ustr ''.PNG''"
  by (simp add: plan_eval sanitize_eval)

text \<open>
  Claim C5, amended: for every call \<open>plan_name(base, ext, index, true)\<close> the returned
  name is \<open>S + "-" + n + ext.lower()\<close>, where \<open>S\<close> is the sanitized base and \<open>n\<close> is the
  smallest integer in 1, 2, 3, ... such that the stem \<open>S + "-" + n\<close> is absent from
  \<open>index\<close>; that stem is inserted into \<open>index\<close> before returning; in particular
  \<open>plan_name("TAG", ".png", {}, true)\<close> returns \<open>"TAG-1.png"\<close> and an identical second
  call on the now-mutated index returns \<open>"TAG-2.png"\<close>.
\<close>

theorem plan_name_duplicates:
  "(\<exists>n. 1 \<le> n
        \<and> stem_of (sanitize_and_upper base) n |\<notin>| index
        \<and> (\<forall>k. 1 \<le> k \<and> k < n \<longrightarrow> stem_of (sanitize_and_upper base) k |\<in>| index)
        \<and> plan_name base ext index True
            = (sanitize_and_upper base @ ustr ''-'' @ dec_str n @ py_lower ext,
               finsert (stem_of (sanitize_and_upper base) n) index))
   \<and> plan_name (ustr ''TAG'') (ustr ''.png'') {||} True = (ustr ''TAG-1.png'', {|ustr ''TAG-1''|})
   \<and> plan_name (ustr ''TAG'') (ustr ''.png'') {|ustr ''TAG-1''|} True
       = (ustr ''TAG-2.png'', {|ustr ''TAG-2'', ustr ''TAG-1''|})"
proof (intro conjI)
  from plan_loop_first_free [of 1 "sanitize_and_upper base" index "py_lower ext"]
  obtain n where n: "1 \<le> n" "stem_of (sanitize_and_upper base) n |\<notin>| index"
      "\<forall>k. 1 \<le> k \<and> k < n \<longrightarrow> stem_of (sanitize_and_upper base) k |\<in>| index"
      "plan_loop (sanitize_and_upper base) (py_lower ext) index 1
         = (stem_of (sanitize_and_upper base) n @ py_lower ext,
            finsert (stem_of (sanitize_and_upper base) n) index)"
    by blast
  from n(4) have "plan_name base ext index True
      = (sanitize_and_upper base @ ustr ''-'' @ dec_str n @ py_lower ext,
         finsert (stem_of (sanitize_and_upper base) n) index)"
    by (simp add: plan_name_def stem_of_def)
  with n(1,2,3) show "\<exists>n. 1 \<le> n
        \<and> stem_of (sanitize_and_upper base) n |\<notin>| index
        \<and> (\<forall>k. 1 \<le> k \<and> k < n \<longrightarrow> stem_of (sanitize_and_upper base) k |\<in>| index)
        \<and> plan_name base ext index True
            = (sanitize_and_upper base @ ustr ''-'' @ dec_str n @ py_lower ext,
               finsert (stem_of (sanitize_and_upper base) n) index)"
    by blast
next
  show "plan_name (ustr ''TAG'') (ustr ''.png'') {||} True = (ustr ''TAG-1.png'', {|ustr ''TAG-1''|})"
    by (simp add: plan_eval sanitize_eval)
next
  show "plan_name (ustr ''TAG'') (ustr ''.png'') {|ustr ''TAG-1''|} True
       = (ustr ''TAG-2.png'', {|ustr ''TAG-2'', ustr ''TAG-1''|})"
    by (simp add: plan_eval sanitize_eval)
qed

text \<open>
  The theorem at base \<open>"tag 7"\<close>, extension \<open>".PNG"\<close> and an index that holds
  \<open>"TAG-7-1"\<close> and \<open>"TAG-7-3"\<close>: suffix 1 is taken, 2 is the first free one.
\<close>

theorem plan_name_duplicates_witness:
  "stem_of (sanitize_and_upper (ustr ''tag 7'')) 1 |\<in>| {|ustr ''TAG-7-1'', ustr ''TAG-7-3''|}
   \<and> stem_of (sanitize_and_upper (ustr ''tag 7'')) 2 |\<notin>| {|ustr ''TAG-7-1'', ustr ''TAG-7-3''|}
   \<and> plan_name (ustr ''tag 7'') (ustr ''.PNG'') {|ustr ''TAG-7-1'', ustr ''TAG-7-3''|} True
       = (ustr ''TAG-7-2.png'', {|ustr ''TAG-7-2'', ustr ''TAG-7-1'', ustr ''TAG-7-3''|})"
  using plan_name_duplicates [of "ustr ''tag 7''" "{|ustr ''TAG-7-1'', ustr ''TAG-7-3''|}" "ustr ''.PNG''"]
  by (simp add: plan_eval sanitize_eval)

text \<open>
  Claim C6: for every finite sequence of \<open>plan_name\<close> calls that share one index set
  and all pass \<open>duplicates=true\<close>, the stems (filenames minus extension) of the
  returned names are pairwise distinct, for any mix of base strings.
\<close>

theorem plan_calls_stems_distinct:
  "distinct (map2 drop_ext (fst (plan_calls calls index)) (map snd calls))"
  using plan_calls_fresh [of calls index] by blast

theorem plan_calls_stems_distinct_witness:
  "fst (plan_calls [(ustr ''TAG'', ustr ''.png''), (ustr ''tag'', ustr ''.JPG''), (ustr ''TAG-1'', ustr ''.png'')]
         {|ustr ''TAG-2''|})
     = [ustr ''TAG-1.png'', ustr ''TAG-3.jpg'', ustr ''TAG-1-1.png'']
   \<and> distinct [ustr ''TAG-1'', ustr ''TAG-3'', ustr ''TAG-1-1'']"
  using plan_calls_stems_distinct
    [of "[(ustr ''TAG'', ustr ''.png''), (ustr ''tag'', ustr ''.JPG''), (ustr ''TAG-1'', ustr ''.png'')]"
        "{|ustr ''TAG-2''|}"]
  by (simp add: plan_eval sanitize_eval)

text \<open>
  Claim C7, as stated: with duplicates disabled the returned name is the sanitized
  base concatenated with the extension. It fails when \<open>ext\<close> has an upper-case letter,
  for the same reason as C5: for base \<open>"TAG"\<close> and extension \<open>".PNG"\<close> the code returns
  \<open>"TAG.png"\<close>, not \<open>"TAG.PNG"\<close>.
\<close>

theorem plan_name_plain_ext_counterexample:
  "plan_name (ustr ''TAG'') (ustr ''.PNG'') {||} False = (ustr ''TAG.png'', {||})
   \<and> ustr ''TAG.png'' \<noteq> sanitize_and_upper (ustr ''TAG'') @ ustr ''.PNG''"
  by (simp add: plan_eval sanitize_eval)

text \<open>
  Claim C7, amended: for every call \<open>plan_name(base, ext, index, false)\<close> the returned
  name is the sanitized base concatenated with the lower-cased extension,
  unconditionally and regardless of the contents of \<open>index\<close> (which is left as it
  was); in particular \<open>plan_name("TAG", ".png", index, false)\<close> returns \<open>"TAG.png"\<close> for
  every index.
\<close>

theorem plan_name_plain:
  "plan_name base ext index False = (sanitize_and_upper base @ py_lower ext, index)
   \<and> fst (plan_name (ustr ''TAG'') (ustr ''.png'') index False) = ustr ''TAG.png''"
  by (simp add: plan_name_def sanitize_eval py_lower_def lower_cp_def)

theorem plan_name_plain_witness:
  "plan_name (ustr ''a b'') (ustr ''.Jpg'') {|ustr ''A-B''|} False = (ustr ''A-B.jpg'', {|ustr ''A-B''|})"
  using plan_name_plain [of "ustr ''a b''" "ustr ''.Jpg''" "{|ustr ''A-B''|}"]
  by (simp add: sanitize_eval py_lower_def lower_cp_def)


section \<open>The two-phase renamer on concrete batches\<close>

lemmas path_eval =
  path_name_def path_parent_def path_suffix_def path_stem_def has_suffix_def after_dot_def
  path_str_def with_name_def below_def child_of_def

lemmas rename_eval =
  two_phase_rename_def exists_def os_rename_def rollback_def AList.delete_eq
  file_A_def file_B_def file_X_def two_files_def locked_file_def

lemma sample_uuid4_hex: "47 \<notin> set (sample_uuid4 k)"
  by (simp add: sample_uuid4_def)

text \<open>
  The swap batch exchanges the two files on either platform: both contents survive,
  at different paths.
\<close>

lemma swap_batch_exchanges:
  assumes "\<And>k. 47 \<notin> set (tokens k)"
  shows "two_phase_rename plat tokens two_files [(file_A, file_B), (file_B, file_A)]
           = (\<lparr>files = [(file_B, Bytes 1), (file_A, Bytes 2)], denied = []\<rparr>, Inr (2, 0))"
  using assms by (simp add: rename_eval path_eval)

text \<open>
  On Windows the second pair of the shared-destination batch stays under its
  quarantine name: the rollback raises \<open>FileExistsError\<close>, which is swallowed.
\<close>

lemma shared_destination_windows:
  assumes "\<And>k. 47 \<notin> set (tokens k)"
  shows "two_phase_rename Windows tokens two_files [(file_A, file_X), (file_B, file_X)]
           = (\<lparr>files = [([ustr ''photos'', ustr ''__TMP__'' @ tokens 1 @ ustr ''__B.png''], Bytes 2),
                         (file_X, Bytes 1)],
               denied = []\<rparr>, Inr (1, 1))"
  using assms by (simp add: rename_eval path_eval)

text \<open>Every entry that reaches stage 2 is counted, as a success or as a failure.\<close>

lemma stage2_counts_every_entry:
  "stage2 plat fs items ok fail = (fs', ok', fail') \<Longrightarrow> ok' + fail' = ok + fail + length items"
  by (induction plat fs items ok fail rule: stage2.induct) (auto split: if_splits sum.splits)

text \<open>
  Claim C1 says that no batch loses a file, and that for \<open>[(A,X),(B,X)]\<close> exactly one
  pair succeeds, one is counted as failed, and no data is lost. On POSIX the code loses
  a file on that very batch. Stage 2 moves \<open>A\<close> to \<open>X\<close>; for the second pair it finds
  \<open>X\<close> present and counts a failure; the rollback then takes its target from
  \<open>dst.name\<close>, which is \<open>X\<close> itself, and \<open>rename\<close> replaces \<open>X\<close>. The call returns
  \<open>(1, 1)\<close> and the directory holds one file, \<open>X\<close>, with the content of \<open>B\<close>: the
  content of \<open>A\<close> is gone, and both sources were moved to the same path.
\<close>

theorem shared_destination_posix_loses_file:
  assumes "\<And>k. 47 \<notin> set (tokens k)"
  shows "two_phase_rename Posix tokens two_files [(file_A, file_X), (file_B, file_X)]
           = (\<lparr>files = [(file_X, Bytes 2)], denied = []\<rparr>, Inr (1, 1))"
  using assms by (simp add: rename_eval path_eval)

theorem shared_destination_posix_loses_file_witness:
  "two_phase_rename Posix sample_uuid4 two_files [(file_A, file_X), (file_B, file_X)]
     = (\<lparr>files = [(file_X, Bytes 2)], denied = []\<rparr>, Inr (1, 1))
   \<and> map_of (files two_files) file_A = Some (Bytes 1)
   \<and> Bytes 1 \<notin> snd ` set [(file_X, Bytes 2)]"
  using shared_destination_posix_loses_file [of sample_uuid4, OF sample_uuid4_hex]
  by (simp add: two_files_def)

text \<open>
  Claim C2 says that a pair whose rename raises a filesystem error in either phase is
  counted in the returned fail count. For an error in stage 1 the code does not count
  it: the \<open>except\<close> branch of the first loop only passes (its comment says the pair
  enters the failure statistics), and stage 2 never sees the pair. With one existing
  source whose rename the operating system refuses, the call returns \<open>(0, 0)\<close> and
  leaves the disk as it was.
\<close>

theorem stage1_error_not_counted:
  assumes "\<And>k. 47 \<notin> set (tokens k)"
  shows "exists locked_file file_A
         \<and> os_rename plat locked_file file_A
              [ustr ''photos'', ustr ''__TMP__'' @ tokens 0 @ ustr ''__A.png''] = Inl PermissionError
         \<and> two_phase_rename plat tokens locked_file [(file_A, file_B)] = (locked_file, Inr (0, 0))"
  using assms by (simp add: rename_eval path_eval)

theorem stage1_error_not_counted_witness:
  "exists locked_file file_A
   \<and> two_phase_rename Windows sample_uuid4 locked_file [(file_A, file_B)] = (locked_file, Inr (0, 0))"
  using stage1_error_not_counted [of sample_uuid4 Windows, OF sample_uuid4_hex]
  by simp


section \<open>Properties of the orchestrator\<close>

lemmas fs_eval =
  exists_def os_rename_def write_file_def ensure_dir_def safe_clean_dir_def iter_images_def
  IMG_EXTS_def collect_existing_basenames_def AList.delete_eq


lemmas sample_eval =
  sample_params_def sample_world_def sample_disk_def sample_image_def no_images_disk_def
  sample_uuid4_def fresh_state_def







lemma prepare_sub_out_keeps:
  assumes "prepare_sub_out p st sub_out = Inr st1"
  shows "existing_map st1 sub_out \<noteq> None" and "rows st1 = rows st"
    and "plan_pairs st1 = plan_pairs st"
  using assms
  by (auto simp: prepare_sub_out_def split: if_splits sum.splits)

lemma unknown_has_text: "\<not> no_text (ustr ''UNKNOWN'')"
  by (simp add: no_text_def startswith_def OCR_ERROR_MARKER_def)

lemma sanitize_unknown: "sanitize_and_upper (ustr ''UNKNOWN'') = ustr ''UNKNOWN''"
  by (simp add: sanitize_eval)

text \<open>
  Claim C10: when no API key is configured, \<open>OCRClient.ocr\<close> returns the literal string
  \<open>"UNKNOWN"\<close>, and the orchestrator does not classify \<open>"UNKNOWN"\<close> as no-text (it is
  non-empty and does not start with the error marker); consequently, for every image
  whose OCR call yields \<open>"UNKNOWN"\<close>, the image receives status \<open>PLANNED\<close> with
  sanitized base \<open>"UNKNOWN"\<close> and is queued for rename, rather than receiving status
  \<open>NO_TEXT\<close>. The image reaches the OCR call when its output directory could be
  prepared, it opens, and the detector returns at least one box of the target class.
\<close>

theorem unknown_text_is_planned:
  assumes prepared: "prepare_sub_out p st (sub_out_of p img) = Inr st1"
    and opens: "image_opens w img"
    and detected: "detect_for_image w img = Inr dets"
    and merged: "merge_boxes_xyxy (map xyxy (filter (matches_target p) dets)) = Some crop_box"
    and answer: "ocr \<lparr>model = ark_model p, api_key = Some (ark_key p), base_url = DEFAULT_ARK_BASE_URL\<rparr>
                   (env_ark_key w) (sdk_answer w img crop_box (prompt p))
                   (rest_answer w img crop_box (prompt p)) = ustr ''UNKNOWN''"
  shows "(\<not> truthy (api_key cfg) \<and> \<not> truthy env_key
            \<longrightarrow> ocr cfg env_key sdk_call rest_call = ustr ''UNKNOWN'')
         \<and> \<not> no_text (ustr ''UNKNOWN'')
         \<and> (\<exists>existing final st'.
               existing_map st1 (sub_out_of p img) = Some existing
               \<and> final = fst (plan_name (ustr ''UNKNOWN'') (py_lower (path_suffix img)) existing
                                (duplicates p))
               \<and> process_image w p crop_dir st img = Inr st'
               \<and> rows st' = rows st @ [ledger_row img (ustr ''UNKNOWN'') (ustr ''UNKNOWN'') final
                                          (ustr ''PLANNED'')]
               \<and> plan_pairs st' = plan_pairs st @ [(img, sub_out_of p img @ [final])])"
proof (intro conjI)
  show "\<not> truthy (api_key cfg) \<and> \<not> truthy env_key
          \<longrightarrow> ocr cfg env_key sdk_call rest_call = ustr ''UNKNOWN''"
    by (auto simp: ocr_def truthy_def split: option.splits)
next
  show "\<not> no_text (ustr ''UNKNOWN'')" by (rule unknown_has_text)
next
  from prepare_sub_out_keeps [OF prepared]
  obtain existing where existing: "existing_map st1 (sub_out_of p img) = Some existing"
    and same: "rows st1 = rows st" "plan_pairs st1 = plan_pairs st"
    by auto
  obtain final existing' where planned:
    "plan_name (ustr ''UNKNOWN'') (py_lower (path_suffix img)) existing (duplicates p)
       = (final, existing')"
    by (cases "plan_name (ustr ''UNKNOWN'') (py_lower (path_suffix img)) existing (duplicates p)")
  from merged have boxes: "map xyxy (filter (matches_target p) dets) \<noteq> []"
    by auto
  let ?st2 = "st1\<lparr>store := save_crop (store st1) crop_dir img\<rparr>"
  let ?st' = "?st2\<lparr>existing_map := (existing_map ?st2)(sub_out_of p img \<mapsto> existing'),
                   plan_pairs := plan_pairs ?st2 @ [(img, sub_out_of p img @ [final])],
                   rows := rows ?st2 @ [ledger_row img (ustr ''UNKNOWN'') (ustr ''UNKNOWN'') final
                                          (ustr ''PLANNED'')]\<rparr>"
  have step: "process_image w p crop_dir st img = Inr ?st'"
    using prepared opens detected merged boxes answer existing planned
      unknown_has_text sanitize_unknown
    by (simp add: process_image_def Let_def)
  show "\<exists>existing final st'.
          existing_map st1 (sub_out_of p img) = Some existing
          \<and> final = fst (plan_name (ustr ''UNKNOWN'') (py_lower (path_suffix img)) existing
                           (duplicates p))
          \<and> process_image w p crop_dir st img = Inr st'
          \<and> rows st' = rows st @ [ledger_row img (ustr ''UNKNOWN'') (ustr ''UNKNOWN'') final
                                     (ustr ''PLANNED'')]
          \<and> plan_pairs st' = plan_pairs st @ [(img, sub_out_of p img @ [final])]"
    using existing planned step same
    by (intro exI [of _ existing] exI [of _ final] exI [of _ ?st']) simp
qed

text \<open>
  The sample run has no API key: its one image is planned as \<open>UNKNOWN-1.png\<close> in the
  output directory \<open>out/in_output\<close>.
\<close>

theorem unknown_text_is_planned_witness:
  "ocr \<lparr>model = ark_model sample_params, api_key = Some (ark_key sample_params),
        base_url = DEFAULT_ARK_BASE_URL\<rparr>
     (env_ark_key sample_world)
     (sdk_answer sample_world sample_image (0, 0, 10, 10) (prompt sample_params))
     (rest_answer sample_world sample_image (0, 0, 10, 10) (prompt sample_params)) = ustr ''UNKNOWN''
   \<and> (case process_image sample_world sample_params (Some [ustr ''crops'']) (fresh_state sample_disk)
              sample_image of
         Inl e \<Rightarrow> False
       | Inr st' \<Rightarrow>
           rows st' = [[ustr ''/in'', ustr ''a.png'', ustr ''UNKNOWN'', ustr ''UNKNOWN'',
                        ustr ''UNKNOWN-1.png'', ustr ''PLANNED'']]
           \<and> plan_pairs st' = [(sample_image, [ustr ''out'', ustr ''in_output'', ustr ''UNKNOWN-1.png''])])"
proof -
  let ?sub_out = "[ustr ''out'', ustr ''in_output'']"
  let ?st1 = "(fresh_state sample_disk)\<lparr>cleaned_subdirs := {?sub_out},
                                        existing_map := [?sub_out \<mapsto> {||}]\<rparr>"
  have sub_out: "sub_out_of sample_params sample_image = ?sub_out"
    by (simp add: sample_eval sub_out_of_def first_segment_def path_eval)
  have prepared: "prepare_sub_out sample_params (fresh_state sample_disk)
                    (sub_out_of sample_params sample_image) = Inr ?st1"
    unfolding sub_out by (simp add: sample_eval prepare_sub_out_def fs_eval path_eval)
  have opens: "image_opens sample_world sample_image"
    by (simp add: sample_world_def)
  have detected: "detect_for_image sample_world sample_image
                    = Inr [\<lparr>cls_name = ustr ''Tag '', xyxy = (0, 0, 10, 10)\<rparr>,
                           \<lparr>cls_name = ustr ''label'', xyxy = (5, 5, 20, 20)\<rparr>]"
    by (simp add: sample_world_def)
  have merged: "merge_boxes_xyxy (map xyxy (filter (matches_target sample_params)
                    [\<lparr>cls_name = ustr ''Tag '', xyxy = (0, 0, 10, 10)\<rparr>,
                     \<lparr>cls_name = ustr ''label'', xyxy = (5, 5, 20, 20)\<rparr>])) = Some (0, 0, 10, 10)"
    by (simp add: sample_params_def matches_target_def strip_chars_def is_space_def py_lower_def
                  lower_cp_def)
  have answer: "ocr \<lparr>model = ark_model sample_params, api_key = Some (ark_key sample_params),
                     base_url = DEFAULT_ARK_BASE_URL\<rparr>
                  (env_ark_key sample_world)
                  (sdk_answer sample_world sample_image (0, 0, 10, 10) (prompt sample_params))
                  (rest_answer sample_world sample_image (0, 0, 10, 10) (prompt sample_params))
                  = ustr ''UNKNOWN''"
    by (simp add: sample_params_def sample_world_def ocr_def truthy_def)
  have final: "fst (plan_name (ustr ''UNKNOWN'') (py_lower (path_suffix sample_image)) {||}
                 (duplicates sample_params)) = ustr ''UNKNOWN-1.png''"
    by (simp add: sample_eval path_eval plan_eval sanitize_eval)
  from unknown_text_is_planned
         [where crop_dir = "Some [ustr ''crops'']", OF prepared opens detected merged answer,
          THEN conjunct2, THEN conjunct2]
  obtain existing final st' where
    seeded: "existing_map ?st1 (sub_out_of sample_params sample_image) = Some existing" and
    chosen: "final = fst (plan_name (ustr ''UNKNOWN'') (py_lower (path_suffix sample_image)) existing
                           (duplicates sample_params))" and
    step: "process_image sample_world sample_params (Some [ustr ''crops'']) (fresh_state sample_disk)
             sample_image = Inr st'" and
    row: "rows st' = rows (fresh_state sample_disk)
            @ [ledger_row sample_image (ustr ''UNKNOWN'') (ustr ''UNKNOWN'') final (ustr ''PLANNED'')]" and
    pair: "plan_pairs st' = plan_pairs (fresh_state sample_disk)
             @ [(sample_image, sub_out_of sample_params sample_image @ [final])]"
    by blast
  from seeded have "existing = {||}"
    unfolding sub_out by simp
  with chosen final have name: "final = ustr ''UNKNOWN-1.png''"
    by simp
  from answer step row pair show ?thesis
    unfolding name sub_out
    by (simp add: fresh_state_def ledger_row_def sample_image_def path_eval)
qed


end
